theory Spec2Isabelle
  imports Complex_Main "HOL-Library.Multiset"
begin

section \<open>Float64 arithmetic\<close>

text \<open>
  The telemetry cells are float64 values.  How float64 rounds a product, a quotient or a
  mean, and what it does with NaN and the infinities, is decided by numpy and the
  hardware, not by the repository.  It is therefore a parameter: a type \<open>'f\<close> of
  float64 values and the operations the engine applies to them.  Every definition of
  the engine takes the operations as its first argument, and every theorem holds for all
  operations, so in particular for the IEEE ones.

  \<^item> \<open>f_lit\<close>: the float64 value of a decimal literal of the source;
  \<^item> \<open>f_lt a b\<close>: the comparison \<open>a < b\<close> (and \<open>b > a\<close>);
  \<^item> \<open>f_mul\<close>, \<open>f_sub\<close>, \<open>f_div\<close>, \<open>f_abs\<close>: \<open>*\<close>, \<open>-\<close>, \<open>/\<close> and \<open>abs\<close>;
  \<^item> \<open>f_round\<close>: \<open>round(0)\<close>;
  \<^item> \<open>f_ratio k n\<close>: the mean of a boolean column with \<open>k\<close> true cells out of \<open>n\<close>;
  \<^item> \<open>f_mean\<close>, \<open>f_std\<close>: pandas' mean and standard deviation of the cells of a group.
\<close>

record 'f float64 =
  f_lit :: "real \<Rightarrow> 'f"
  f_lt :: "'f \<Rightarrow> 'f \<Rightarrow> bool"
  f_mul :: "'f \<Rightarrow> 'f \<Rightarrow> 'f"
  f_sub :: "'f \<Rightarrow> 'f \<Rightarrow> 'f"
  f_div :: "'f \<Rightarrow> 'f \<Rightarrow> 'f"
  f_abs :: "'f \<Rightarrow> 'f"
  f_round :: "'f \<Rightarrow> 'f"
  f_ratio :: "nat \<Rightarrow> nat \<Rightarrow> 'f"
  f_mean :: "'f list \<Rightarrow> 'f"
  f_std :: "'f list \<Rightarrow> 'f"

text \<open>Python's builtin \<open>max(a, b)\<close> keeps \<open>a\<close> unless \<open>b > a\<close>.\<close>

definition py_max :: "'f float64 \<Rightarrow> 'f \<Rightarrow> 'f \<Rightarrow> 'f" where
  "py_max ops a b = (if f_lt ops a b then b else a)"

section \<open>Rows, baselines and explanations\<close>

text \<open>
  The row handed to \<open>detect_pattern\<close> is a pandas Series: a field may be absent from
  its index, which the code tests with \<open>"voltage" in row\<close> and \<open>row.get\<close>.  An absent
  field is \<open>None\<close>.  \<open>row["meter_id"]\<close> is read unconditionally.
\<close>

record 'f row =
  row_meter_id :: string
  row_voltage :: "'f option"
  row_current :: "'f option"
  row_power :: "'f option"
  row_rolling_avg_power :: "'f option"
  row_prediction :: "int option"
  row_anomaly_score :: "'f option"

text \<open>One line of \<open>grouped_stats\<close>: the per-meter baseline, columns named as line 80 joins them.\<close>

record 'f stats =
  voltage_mean :: 'f
  voltage_std :: 'f
  current_mean :: 'f
  current_std :: 'f
  power_mean :: 'f
  power_std :: 'f

text \<open>
  The explanation is a Python string made by an f-string from a fixed template and the
  triggering numbers.  The rendering of a float as decimal digits is not modelled: an
  explanation is the template together with the numbers it embeds.  \<open>Text\<close> is any
  other string, as an input table may carry.
\<close>

datatype 'f explanation =
    VoltageDrop 'f 'f 'f 'f
  | PowerSpike 'f 'f
  | LowConsumption 'f 'f 'f
  | AIAnomaly 'f
  | NormalOperation
  | OverloadMessage 'f
  | Text string

datatype error = KeyError string | ValueError | TypeError

text \<open>
  A verdict is the tuple \<open>(pattern, risk, explanation)\<close>.  The risk is only ever one
  of the constants written in the source and is kept as that decimal constant.
\<close>

type_synonym 'f verdict = "string \<times> real \<times> 'f explanation"

section \<open>The row-level classifier\<close>

text \<open>\<open>row.get("prediction", 1) == -1\<close> and \<open>row.get("anomaly_score", 0)\<close>.\<close>

definition is_anomaly :: "'f row \<Rightarrow> bool" where
  "is_anomaly r = ((case row_prediction r of None \<Rightarrow> 1 | Some p \<Rightarrow> p) = - 1)"

definition get_anomaly_score :: "'f float64 \<Rightarrow> 'f row \<Rightarrow> 'f" where
  "get_anomaly_score ops r = (case row_anomaly_score r of None \<Rightarrow> f_lit ops 0 | Some s \<Rightarrow> s)"

text \<open>
  Lines 26-32.  The result is \<open>None\<close> when control falls through to the next
  \<open>if\<close>: a field is absent, or the condition is false.
\<close>

definition theft_signature_rule :: "'f float64 \<Rightarrow> 'f row \<Rightarrow> 'f stats \<Rightarrow> 'f verdict option" where
  "theft_signature_rule ops r st =
     (case row_voltage r of
        None \<Rightarrow> None
      | Some v \<Rightarrow>
         (case row_current r of
            None \<Rightarrow> None
          | Some c \<Rightarrow>
             (let voltage_drop = f_lt ops v (f_mul ops (f_lit ops 0.85) (voltage_mean st));
                  high_current = f_lt ops (f_mul ops (f_lit ops 1.3) (current_mean st)) c
              in if voltage_drop \<and> high_current
                 then Some (''theft'', if is_anomaly r then 0.9 else 0.6,
                            VoltageDrop v (voltage_mean st) c (current_mean st))
                 else None)))"

text \<open>Line 35.\<close>

definition z_score :: "'f float64 \<Rightarrow> 'f \<Rightarrow> 'f stats \<Rightarrow> 'f" where
  "z_score ops p st =
     f_div ops (f_sub ops p (power_mean st)) (py_max ops (power_std st) (f_lit ops 0.001))"

text \<open>Lines 34-39.\<close>

definition fault_rule :: "'f float64 \<Rightarrow> 'f row \<Rightarrow> 'f stats \<Rightarrow> 'f verdict option" where
  "fault_rule ops r st =
     (case row_power r of
        None \<Rightarrow> None
      | Some p \<Rightarrow>
         (if f_lt ops (f_lit ops 3.0) (f_abs ops (z_score ops p st))
          then Some (''fault'', if is_anomaly r then 0.7 else 0.4,
                     PowerSpike p (z_score ops p st))
          else None))"

text \<open>Line 42.\<close>

definition power_ratio :: "'f float64 \<Rightarrow> 'f \<Rightarrow> 'f \<Rightarrow> 'f" where
  "power_ratio ops p ra = f_div ops p (py_max ops ra (f_lit ops 0.001))"

text \<open>Lines 41-46.\<close>

definition suppression_rule :: "'f float64 \<Rightarrow> 'f row \<Rightarrow> 'f verdict option" where
  "suppression_rule ops r =
     (case row_power r of
        None \<Rightarrow> None
      | Some p \<Rightarrow>
         (case row_rolling_avg_power r of
            None \<Rightarrow> None
          | Some ra \<Rightarrow>
             (if f_lt ops (power_ratio ops p ra) (f_lit ops 0.5)
              then Some (''theft'', if is_anomaly r then 0.8 else 0.5,
                         LowConsumption (f_mul ops (power_ratio ops p ra) (f_lit ops 100)) p ra)
              else None)))"

text \<open>Lines 48-53: what is returned once the three rules have fallen through.\<close>

definition fallback :: "'f float64 \<Rightarrow> 'f row \<Rightarrow> 'f verdict" where
  "fallback ops r =
     (if is_anomaly r then (''anomaly'', 0.5, AIAnomaly (get_anomaly_score ops r))
      else (''normal'', 0.0, NormalOperation))"

text \<open>
  \<open>detect_pattern\<close>, lines 20-53.  \<open>grouped_stats.loc[meter_id]\<close> raises KeyError
  when the meter has no line in the baseline table.  After that the rules run in the
  order of the source and the first one that returns ends the call.
\<close>

definition detect_pattern ::
  "'f float64 \<Rightarrow> 'f row \<Rightarrow> (string \<rightharpoonup> 'f stats) \<Rightarrow> error + 'f verdict" where
  "detect_pattern ops r grouped_stats =
     (case grouped_stats (row_meter_id r) of
        None \<Rightarrow> Inl (KeyError (row_meter_id r))
      | Some st \<Rightarrow>
         (case theft_signature_rule ops r st of
            Some v \<Rightarrow> Inr v
          | None \<Rightarrow>
             (case fault_rule ops r st of
                Some v \<Rightarrow> Inr v
              | None \<Rightarrow>
                 (case suppression_rule ops r of
                    Some v \<Rightarrow> Inr v
                  | None \<Rightarrow> Inr (fallback ops r)))))"

section \<open>Tables\<close>

text \<open>
  A reading is one line of the feature table that preprocessing hands to the engine:
  the identifying columns, the three measured signals and the derived features.
  \<open>transformer_id\<close> is \<open>None\<close> where the cell is missing.  The \<open>power\<close> column is
  the field \<open>power_kw\<close>.
\<close>

record 'f reading =
  meter_id :: string
  timestamp :: int
  transformer_id :: "string option"
  voltage :: 'f
  current :: 'f
  power_kw :: 'f
  kwh_denoised :: 'f
  rolling_avg_power :: 'f
  deviation_from_normal :: 'f
  energy_kwh :: 'f

text \<open>The table after lines 72-78 have added the outlier verdict.\<close>

record 'f scored = "'f reading" +
  prediction :: int
  anomaly_score :: 'f

text \<open>The table after lines 82-84 have added the decision columns.\<close>

record 'f decision = "'f scored" +
  pattern :: string
  risk_score :: real
  explanation :: "'f explanation"

text \<open>The table after line 107 has added the alert column.\<close>

record 'f alerted = "'f decision" +
  alert :: bool

text \<open>
  A table is its lines in order, with a unique index as \<open>read_csv\<close> gives it, so a
  line is addressed by its position.  Whether the table has a \<open>transformer_id\<close> column
  at all is a property of the table, tested at line 57; without the column the field of
  the lines is not looked at.
\<close>

record 'r frame =
  has_transformer_id :: bool
  rows :: "'r list"

text \<open>
  The fitted outlier model is scikit-learn code.  It is taken as a parameter: the label
  (1 or -1) and the score it gives to a line of features.
\<close>

record 'f outlier_model =
  predict :: "'f reading \<Rightarrow> int"
  decision_function :: "'f reading \<Rightarrow> 'f"

section \<open>Baseline statistics\<close>

text \<open>Lines 79-80: one line of statistics for every meter that has a line in the table.\<close>

definition build_grouped_stats ::
  "'f float64 \<Rightarrow> ('f, 'a) scored_scheme list \<Rightarrow> (string \<rightharpoonup> 'f stats)" where
  "build_grouped_stats ops df m =
     (let g = filter (\<lambda>r. meter_id r = m) df
      in if g = [] then None
         else Some \<lparr> voltage_mean = f_mean ops (map voltage g),
                     voltage_std = f_std ops (map voltage g),
                     current_mean = f_mean ops (map current g),
                     current_std = f_std ops (map current g),
                     power_mean = f_mean ops (map power_kw g),
                     power_std = f_std ops (map power_kw g) \<rparr>)"

section \<open>The transformer-overload aggregator\<close>

text \<open>\<open>df.groupby("meter_id")["power"].transform("mean")\<close> at a line of meter \<open>m\<close>.\<close>

definition meter_mean_power ::
  "'f float64 \<Rightarrow> ('f, 'a) decision_scheme list \<Rightarrow> string \<Rightarrow> 'f" where
  "meter_mean_power ops df m = f_mean ops (map power_kw (filter (\<lambda>x. meter_id x = m) df))"

text \<open>Line 61: the power of the line against 1.2 times the mean power of its meter.\<close>

definition high_load ::
  "'f float64 \<Rightarrow> ('f, 'a) decision_scheme list \<Rightarrow> ('f, 'a) decision_scheme \<Rightarrow> bool" where
  "high_load ops df r =
     f_lt ops (f_mul ops (meter_mean_power ops df (meter_id r)) (f_lit ops 1.2)) (power_kw r)"

text \<open>
  Line 60: the lines of transformer \<open>t\<close> at instant \<open>ts\<close>.  Line 62: the mean of the
  booleans \<open>high_load\<close> over such a group, that is the number of its lines at high load
  out of the number of its lines.
\<close>

definition group_of ::
  "('f, 'a) decision_scheme list \<Rightarrow> string \<Rightarrow> int \<Rightarrow> ('f, 'a) decision_scheme list" where
  "group_of df t ts = filter (\<lambda>x. transformer_id x = Some t \<and> timestamp x = ts) df"

definition group_fraction ::
  "'f float64 \<Rightarrow> ('f, 'a) decision_scheme list \<Rightarrow> string \<Rightarrow> int \<Rightarrow> 'f" where
  "group_fraction ops df t ts =
     f_ratio ops (length (filter (high_load ops df) (group_of df t ts)))
       (length (group_of df t ts))"

text \<open>
  The cell of \<open>overload_pct\<close> at a line.  \<open>groupby\<close> drops the lines whose
  transformer is missing and \<open>transform\<close> puts them back with a missing value, here
  \<open>None\<close>; the comparison of line 63 is false on it.
\<close>

definition overload_pct ::
  "'f float64 \<Rightarrow> ('f, 'a) decision_scheme list \<Rightarrow> ('f, 'a) decision_scheme \<Rightarrow> 'f option" where
  "overload_pct ops df r =
     (case transformer_id r of
        None \<Rightarrow> None
      | Some t \<Rightarrow> Some (group_fraction ops df t (timestamp r)))"

text \<open>Lines 64-66 at one line of the table whose mask cell is true.\<close>

definition force_overload ::
  "'f float64 \<Rightarrow> 'f \<Rightarrow> ('f, 'a) decision_scheme \<Rightarrow> ('f, 'a) decision_scheme" where
  "force_overload ops pct r =
     r\<lparr> pattern := ''transformer_overload'',
        risk_score := 0.85,
        explanation := OverloadMessage (f_round ops (f_mul ops pct (f_lit ops 100))) \<rparr>"

text \<open>Lines 63-66 at one line \<open>r\<close> of the table \<open>df\<close>.\<close>

definition override_row ::
  "'f float64 \<Rightarrow> ('f, 'a) decision_scheme list \<Rightarrow> 'f \<Rightarrow> ('f, 'a) decision_scheme \<Rightarrow>
     ('f, 'a) decision_scheme" where
  "override_row ops df threshold r =
     (case overload_pct ops df r of
        None \<Rightarrow> r
      | Some pct \<Rightarrow> if f_lt ops threshold pct then force_overload ops pct r else r)"

text \<open>
  \<open>check_transformer_overload\<close>, lines 56-67.  When the table has lines and the
  transformer cell of every one of them is missing, \<open>groupby\<close> has no group at all and
  \<open>transform\<close> returns an empty column; the mask made of it does not align with the
  table and the assignment of line 64 raises TypeError.  A table without lines has
  nothing to align and comes back as it is.
\<close>

definition check_transformer_overload ::
  "'f float64 \<Rightarrow> ('f, 'a) decision_scheme frame \<Rightarrow> 'f \<Rightarrow>
     error + ('f, 'a) decision_scheme frame" where
  "check_transformer_overload ops df threshold =
     (if \<not> has_transformer_id df then Inr df
      else if rows df \<noteq> [] \<and> list_all (\<lambda>r. transformer_id r = None) (rows df)
      then Inl TypeError
      else Inr (df\<lparr> rows := map (override_row ops (rows df) threshold) (rows df) \<rparr>))"

section \<open>The pipeline\<close>

definition add_outlier_verdict ::
  "'f float64 \<Rightarrow> 'f outlier_model option \<Rightarrow> 'f reading \<Rightarrow> 'f scored" where
  "add_outlier_verdict ops model r =
     (case model of
        Some m \<Rightarrow> reading.extend r (scored.fields (predict m r) (decision_function m r))
      | None \<Rightarrow> reading.extend r (scored.fields 1 (f_lit ops 0.0)))"

text \<open>The Series that \<open>df.apply(..., axis=1)\<close> makes of a line: every column is present.\<close>

definition to_row :: "'f scored \<Rightarrow> 'f row" where
  "to_row r =
     \<lparr> row_meter_id = meter_id r,
       row_voltage = Some (voltage r),
       row_current = Some (current r),
       row_power = Some (power_kw r),
       row_rolling_avg_power = Some (rolling_avg_power r),
       row_prediction = Some (prediction r),
       row_anomaly_score = Some (anomaly_score r) \<rparr>"

definition add_decision :: "'f scored \<Rightarrow> 'f verdict \<Rightarrow> 'f decision" where
  "add_decision r v =
     (case v of (p, risk, e) \<Rightarrow> scored.extend r (decision.fields p risk e))"

text \<open>Line 81 with lines 82-84: the first line that raises ends the run.\<close>

fun classify_rows ::
  "'f float64 \<Rightarrow> (string \<rightharpoonup> 'f stats) \<Rightarrow> 'f scored list \<Rightarrow> error + 'f decision list" where
  "classify_rows ops gs [] = Inr []"
| "classify_rows ops gs (r # rs) =
     (case detect_pattern ops (to_row r) gs of
        Inl e \<Rightarrow> Inl e
      | Inr v \<Rightarrow>
         (case classify_rows ops gs rs of
            Inl e \<Rightarrow> Inl e
          | Inr ds \<Rightarrow> Inr (add_decision r v # ds)))"

text \<open>
  \<open>analyze_patterns\<close>, lines 70-86.  On a table without lines the run ends with
  ValueError: with a model, scikit-learn refuses an input of no samples at line 74;
  without one, \<open>df.apply(..., axis=1)\<close> at line 81 gives back an empty table instead
  of a column, which line 82 cannot assign to the single column \<open>pattern\<close>.  Line 85
  calls the aggregator with its default threshold 0.7.
\<close>

definition analyze_patterns ::
  "'f float64 \<Rightarrow> 'f reading frame \<Rightarrow> 'f outlier_model option \<Rightarrow> error + 'f decision frame" where
  "analyze_patterns ops processed model =
     (if rows processed = [] then Inl ValueError
      else
        let df = map (add_outlier_verdict ops model) (rows processed);
            grouped_stats = build_grouped_stats ops df
        in case classify_rows ops grouped_stats df of
             Inl e \<Rightarrow> Inl e
           | Inr ds \<Rightarrow>
               check_transformer_overload ops
                 \<lparr> has_transformer_id = has_transformer_id processed, rows = ds \<rparr>
                 (f_lit ops 0.7))"

text \<open>Line 107.\<close>

definition add_alert :: "'f decision \<Rightarrow> 'f alerted" where
  "add_alert d = decision.extend d (alerted.fields (pattern d \<noteq> ''normal''))"

text \<open>
  Line 108, \<open>sort_values("risk_score", ascending=False)\<close>, runs pandas' default sort
  kind, quicksort.  The algorithm is library code, chosen by numpy for the processor
  it runs on; what the call guarantees is its contract: the result holds the same lines
  and their risk scores do not increase.  \<open>sort_values_desc xs ys\<close> says that \<open>ys\<close>
  satisfies the contract for \<open>xs\<close>.  Which of two lines of equal risk comes first is
  not determined here.
\<close>

definition sort_values_desc ::
  "('f, 'a) decision_scheme list \<Rightarrow> ('f, 'a) decision_scheme list \<Rightarrow> bool" where
  "sort_values_desc xs ys =
     (mset ys = mset xs \<and> sorted_wrt (\<lambda>a b. risk_score b \<le> risk_score a) ys)"

text \<open>
  \<open>run_engine\<close>, lines 89-113, from the preprocessed table and the loaded model
  (\<open>None\<close> when no path is given or the path does not exist) to the table it returns.
  Reading the CSV, preprocessing, printing and writing the output file are outside.
  There is no result when \<open>analyze_patterns\<close> raises.
\<close>

definition run_engine ::
  "'f float64 \<Rightarrow> 'f reading frame \<Rightarrow> 'f outlier_model option \<Rightarrow> 'f alerted list \<Rightarrow> bool" where
  "run_engine ops processed model out =
     (case analyze_patterns ops processed model of
        Inl e \<Rightarrow> False
      | Inr decisions \<Rightarrow> sort_values_desc (map add_alert (rows decisions)) out)"

section \<open>Auxiliary predicates\<close>

text \<open>What every verdict of the classifier satisfies.\<close>

definition verdict_ok :: "'f verdict \<Rightarrow> bool" where
  "verdict_ok v =
     (fst v \<in> {''theft'', ''fault'', ''anomaly'', ''normal''} \<and>
      0 \<le> fst (snd v) \<and> fst (snd v) \<le> 1 \<and>
      (fst v = ''normal'' \<longrightarrow> fst (snd v) = 0))"

text \<open>
  The decisions that the rules can reach for a row the outlier model has not flagged:
  each explanation template with the pattern and the risk it comes with.  The two
  explanations that cannot occur there are the outlier one and a foreign text.
\<close>

fun rule_only_decision :: "string \<Rightarrow> real \<Rightarrow> 'f explanation \<Rightarrow> bool" where
  "rule_only_decision p k (VoltageDrop _ _ _ _) = (p = ''theft'' \<and> k = 0.6)"
| "rule_only_decision p k (PowerSpike _ _) = (p = ''fault'' \<and> k = 0.4)"
| "rule_only_decision p k (LowConsumption _ _ _) = (p = ''theft'' \<and> k = 0.5)"
| "rule_only_decision p k NormalOperation = (p = ''normal'' \<and> k = 0.0)"
| "rule_only_decision p k (OverloadMessage _) = (p = ''transformer_overload'' \<and> k = 0.85)"
| "rule_only_decision p k (AIAnomaly _) = False"
| "rule_only_decision p k (Text _) = False"

section \<open>Exact arithmetic for the examples\<close>

text \<open>
  An instance of the operations, used to run the engine on example data: a value is a
  real number or NaN, every operation gives the exact result, every comparison with NaN
  is false and every operation on NaN is NaN.  pandas' mean and standard deviation skip
  NaN cells; the mean of no values is NaN and the standard deviation is the sample one
  (\<open>ddof = 1\<close>), NaN for fewer than two values.  \<open>round(0)\<close> rounds a half to the
  even neighbour.  No example divides by zero, and the example values are small
  integers and simple fractions on which float64 decides every comparison the same way.
\<close>

datatype num = NaN | Num real

fun num_lt :: "num \<Rightarrow> num \<Rightarrow> bool" where
  "num_lt (Num a) (Num b) = (a < b)"
| "num_lt _ _ = False"

fun num_mul :: "num \<Rightarrow> num \<Rightarrow> num" where
  "num_mul (Num a) (Num b) = Num (a * b)"
| "num_mul _ _ = NaN"

fun num_sub :: "num \<Rightarrow> num \<Rightarrow> num" where
  "num_sub (Num a) (Num b) = Num (a - b)"
| "num_sub _ _ = NaN"

fun num_div :: "num \<Rightarrow> num \<Rightarrow> num" where
  "num_div (Num a) (Num b) = (if b = 0 then NaN else Num (a / b))"
| "num_div _ _ = NaN"

fun num_abs :: "num \<Rightarrow> num" where
  "num_abs (Num a) = Num \<bar>a\<bar>"
| "num_abs NaN = NaN"

definition round_half_even :: "real \<Rightarrow> real" where
  "round_half_even x =
     (let f = \<lfloor>x\<rfloor>; d = x - of_int f
      in if d < 1/2 then of_int f
         else if 1/2 < d then of_int (f + 1)
         else if even f then of_int f else of_int (f + 1))"

fun num_round :: "num \<Rightarrow> num" where
  "num_round (Num a) = Num (round_half_even a)"
| "num_round NaN = NaN"

definition num_ratio :: "nat \<Rightarrow> nat \<Rightarrow> num" where
  "num_ratio k n = (if n = 0 then NaN else Num (real k / real n))"

fun finite_vals :: "num list \<Rightarrow> real list" where
  "finite_vals [] = []"
| "finite_vals (NaN # xs) = finite_vals xs"
| "finite_vals (Num x # xs) = x # finite_vals xs"

definition col_mean :: "num list \<Rightarrow> num" where
  "col_mean xs =
     (let vs = finite_vals xs
      in if vs = [] then NaN else Num (sum_list vs / real (length vs)))"

definition col_std :: "num list \<Rightarrow> num" where
  "col_std xs =
     (let vs = finite_vals xs; n = length vs; m = sum_list vs / real n
      in if n < 2 then NaN
         else Num (sqrt (sum_list (map (\<lambda>x. (x - m)\<^sup>2) vs) / real (n - 1))))"

definition exact :: "num float64" where
  "exact =
     \<lparr> f_lit = Num, f_lt = num_lt, f_mul = num_mul, f_sub = num_sub, f_div = num_div,
       f_abs = num_abs, f_round = num_round, f_ratio = num_ratio,
       f_mean = col_mean, f_std = col_std \<rparr>"

section \<open>Example data\<close>

text \<open>
  The first scenario of the specification: meter M1 with baseline voltage 230 V and
  current 10 A, power 5 kW with deviation 1 kW.  \<open>example_series\<close> is a row of M1
  with the given fields.
\<close>

definition example_stats :: "num stats" where
  "example_stats =
     \<lparr> voltage_mean = Num 230, voltage_std = Num 2,
       current_mean = Num 10, current_std = Num 1,
       power_mean = Num 5, power_std = Num 1 \<rparr>"

definition example_grouped_stats :: "string \<rightharpoonup> num stats" where
  "example_grouped_stats = [''M1'' \<mapsto> example_stats]"

definition example_series ::
  "num option \<Rightarrow> num option \<Rightarrow> num option \<Rightarrow> num option \<Rightarrow> int option \<Rightarrow> num option \<Rightarrow> num row" where
  "example_series v c p ra pr sc =
     \<lparr> row_meter_id = ''M1'', row_voltage = v, row_current = c, row_power = p,
       row_rolling_avg_power = ra, row_prediction = pr, row_anomaly_score = sc \<rparr>"

text \<open>
  A reading at baseline voltage and current whose rolling average equals its power, and
  the line the classifier makes of it when it carries the verdict \<open>(pat, risk, e)\<close>.
\<close>

definition example_reading :: "string \<Rightarrow> int \<Rightarrow> string option \<Rightarrow> real \<Rightarrow> num reading" where
  "example_reading m ts t p =
     \<lparr> meter_id = m, timestamp = ts, transformer_id = t,
       voltage = Num 230, current = Num 10, power_kw = Num p,
       kwh_denoised = Num p, rolling_avg_power = Num p,
       deviation_from_normal = Num 0, energy_kwh = Num p \<rparr>"

definition example_line ::
  "string \<Rightarrow> int \<Rightarrow> string option \<Rightarrow> real \<Rightarrow> num verdict \<Rightarrow> num decision" where
  "example_line m ts t p v = add_decision (add_outlier_verdict exact None (example_reading m ts t p)) v"

definition example_decision :: "string \<Rightarrow> int \<Rightarrow> string option \<Rightarrow> real \<Rightarrow> num decision" where
  "example_decision m ts t p = example_line m ts t p (''normal'', 0.0, NormalOperation)"

text \<open>
  A batch of four readings.  Meter M1 on transformer T1 reports 1, 2 and 3 kW at three
  instants, so its mean power is 2 kW and only the last reading is above 1.2 times the
  mean; meter M2 has a single reading and no transformer.  The classifier finds every
  one of them normal; the aggregator overrides the last reading of M1.
\<close>

definition example_processed :: "num reading frame" where
  "example_processed =
     \<lparr> has_transformer_id = True,
       rows = [example_reading ''M1'' 1 (Some ''T1'') 1,
               example_reading ''M1'' 2 (Some ''T1'') 2,
               example_reading ''M1'' 3 (Some ''T1'') 3,
               example_reading ''M2'' 3 None 5] \<rparr>"

definition example_decisions :: "num decision frame" where
  "example_decisions =
     \<lparr> has_transformer_id = True,
       rows = [example_decision ''M1'' 1 (Some ''T1'') 1,
               example_decision ''M1'' 2 (Some ''T1'') 2,
               example_decision ''M1'' 3 (Some ''T1'') 3,
               example_decision ''M2'' 3 None 5] \<rparr>"

definition example_overloaded :: "num decision frame" where
  "example_overloaded =
     \<lparr> has_transformer_id = True,
       rows = [example_decision ''M1'' 1 (Some ''T1'') 1,
               example_decision ''M1'' 2 (Some ''T1'') 2,
               force_overload exact (Num 1) (example_decision ''M1'' 3 (Some ''T1'') 3),
               example_decision ''M2'' 3 None 5] \<rparr>"

definition example_output :: "num alerted list" where
  "example_output =
     map add_alert
       [force_overload exact (Num 1) (example_decision ''M1'' 3 (Some ''T1'') 3),
        example_decision ''M1'' 1 (Some ''T1'') 1,
        example_decision ''M1'' 2 (Some ''T1'') 2,
        example_decision ''M2'' 3 None 5]"

text \<open>
  The overload scenario of the specification: transformer T1 feeds four meters.  At
  instant 1 they draw 1, 1, 1 and 2 kW, at instant 2 they draw 3, 3, 3 and 2 kW.  The
  mean power of each meter is 2 kW, so at instant 2 three of the four are above 1.2
  times their mean and M4 is not.  The line of M4 at instant 2 comes in with pattern
  \<open>theft\<close> and every other line with \<open>normal\<close>.
\<close>

definition grid_decisions :: "num decision frame" where
  "grid_decisions =
     \<lparr> has_transformer_id = True,
       rows = [example_decision ''M1'' 1 (Some ''T1'') 1,
               example_decision ''M2'' 1 (Some ''T1'') 1,
               example_decision ''M3'' 1 (Some ''T1'') 1,
               example_decision ''M4'' 1 (Some ''T1'') 2,
               example_decision ''M1'' 2 (Some ''T1'') 3,
               example_decision ''M2'' 2 (Some ''T1'') 3,
               example_decision ''M3'' 2 (Some ''T1'') 3,
               example_line ''M4'' 2 (Some ''T1'') 2
                 (''theft'', 0.5, Text ''set by the classifier'')] \<rparr>"

text \<open>What the aggregator makes of it.\<close>

definition grid_overloaded :: "num decision frame" where
  "grid_overloaded =
     \<lparr> has_transformer_id = True,
       rows = [example_decision ''M1'' 1 (Some ''T1'') 1,
               example_decision ''M2'' 1 (Some ''T1'') 1,
               example_decision ''M3'' 1 (Some ''T1'') 1,
               example_decision ''M4'' 1 (Some ''T1'') 2,
               force_overload exact (Num 0.75) (example_decision ''M1'' 2 (Some ''T1'') 3),
               force_overload exact (Num 0.75) (example_decision ''M2'' 2 (Some ''T1'') 3),
               force_overload exact (Num 0.75) (example_decision ''M3'' 2 (Some ''T1'') 3),
               force_overload exact (Num 0.75)
                 (example_line ''M4'' 2 (Some ''T1'') 2
                    (''theft'', 0.5, Text ''set by the classifier''))] \<rparr>"

text \<open>
  A table that has the \<open>transformer_id\<close> column and one line, whose transformer cell
  is missing; and the same line in a table without the column.
\<close>

definition unmapped_decisions :: "num decision frame" where
  "unmapped_decisions =
     \<lparr> has_transformer_id = True, rows = [example_decision ''M2'' 3 None 5] \<rparr>"

definition columnless_decisions :: "num decision frame" where
  "columnless_decisions =
     \<lparr> has_transformer_id = False, rows = [example_decision ''M2'' 3 None 5] \<rparr>"

section \<open>Properties of the classifier\<close>

lemma theft_signature_rule_cases:
  "theft_signature_rule ops r st = Some v \<Longrightarrow>
     fst v = ''theft'' \<and> (fst (snd v) = 0.9 \<or> fst (snd v) = 0.6)"
  by (auto simp: theft_signature_rule_def Let_def split: option.splits if_splits)

lemma fault_rule_cases:
  "fault_rule ops r st = Some v \<Longrightarrow>
     fst v = ''fault'' \<and> (fst (snd v) = 0.7 \<or> fst (snd v) = 0.4)"
  by (auto simp: fault_rule_def split: option.splits if_splits)

lemma suppression_rule_cases:
  "suppression_rule ops r = Some v \<Longrightarrow>
     fst v = ''theft'' \<and> (fst (snd v) = 0.8 \<or> fst (snd v) = 0.5)"
  by (auto simp: suppression_rule_def split: option.splits if_splits)

lemma fallback_cases:
  "(fst (fallback ops r) = ''anomaly'' \<and> fst (snd (fallback ops r)) = 0.5) \<or>
   (fst (fallback ops r) = ''normal'' \<and> fst (snd (fallback ops r)) = 0)"
  by (simp add: fallback_def)

text \<open>The verdict comes from exactly one of the four places that return.\<close>

lemma detect_pattern_Inr:
  assumes "detect_pattern ops r gs = Inr v"
  obtains st where "gs (row_meter_id r) = Some st"
    and "theft_signature_rule ops r st = Some v \<or>
         (theft_signature_rule ops r st = None \<and> fault_rule ops r st = Some v) \<or>
         (theft_signature_rule ops r st = None \<and> fault_rule ops r st = None \<and>
            suppression_rule ops r = Some v) \<or>
         (theft_signature_rule ops r st = None \<and> fault_rule ops r st = None \<and>
            suppression_rule ops r = None \<and> v = fallback ops r)"
proof -
  from assms obtain st where st: "gs (row_meter_id r) = Some st"
    by (cases "gs (row_meter_id r)") (simp_all add: detect_pattern_def)
  with assms have "theft_signature_rule ops r st = Some v \<or>
         (theft_signature_rule ops r st = None \<and> fault_rule ops r st = Some v) \<or>
         (theft_signature_rule ops r st = None \<and> fault_rule ops r st = None \<and>
            suppression_rule ops r = Some v) \<or>
         (theft_signature_rule ops r st = None \<and> fault_rule ops r st = None \<and>
            suppression_rule ops r = None \<and> v = fallback ops r)"
    by (cases "theft_signature_rule ops r st"; cases "fault_rule ops r st";
        cases "suppression_rule ops r") (simp_all add: detect_pattern_def)
  with st show ?thesis by (rule that)
qed

lemma detect_pattern_ok:
  assumes "detect_pattern ops r gs = Inr v"
  shows "verdict_ok v"
proof -
  from assms obtain st where
    "theft_signature_rule ops r st = Some v \<or>
         (theft_signature_rule ops r st = None \<and> fault_rule ops r st = Some v) \<or>
         (theft_signature_rule ops r st = None \<and> fault_rule ops r st = None \<and>
            suppression_rule ops r = Some v) \<or>
         (theft_signature_rule ops r st = None \<and> fault_rule ops r st = None \<and>
            suppression_rule ops r = None \<and> v = fallback ops r)"
    by (rule detect_pattern_Inr)
  then show ?thesis
    using theft_signature_rule_cases [of ops r st v] fault_rule_cases [of ops r st v]
      suppression_rule_cases [of ops r v] fallback_cases [of ops r]
    by (auto simp: verdict_ok_def)
qed

lemma detect_pattern_total:
  assumes "gs (row_meter_id r) \<noteq> None"
  shows "\<exists>v. detect_pattern ops r gs = Inr v"
proof -
  from assms obtain st where st: "gs (row_meter_id r) = Some st" by auto
  have "detect_pattern ops r gs =
          Inr (case theft_signature_rule ops r st of
                 Some v \<Rightarrow> v
               | None \<Rightarrow> (case fault_rule ops r st of
                   Some v \<Rightarrow> v
                 | None \<Rightarrow> (case suppression_rule ops r of
                     Some v \<Rightarrow> v
                   | None \<Rightarrow> fallback ops r)))"
    using st by (simp add: detect_pattern_def split: option.splits)
  then show ?thesis by blast
qed

lemma detect_pattern_unflagged:
  assumes "\<not> is_anomaly r" and "detect_pattern ops r gs = Inr v"
  shows "rule_only_decision (fst v) (fst (snd v)) (snd (snd v)) \<and> fst v \<noteq> ''anomaly''"
proof -
  from assms(2) obtain st where
    "theft_signature_rule ops r st = Some v \<or>
         (theft_signature_rule ops r st = None \<and> fault_rule ops r st = Some v) \<or>
         (theft_signature_rule ops r st = None \<and> fault_rule ops r st = None \<and>
            suppression_rule ops r = Some v) \<or>
         (theft_signature_rule ops r st = None \<and> fault_rule ops r st = None \<and>
            suppression_rule ops r = None \<and> v = fallback ops r)"
    by (rule detect_pattern_Inr)
  then consider
      (a) "theft_signature_rule ops r st = Some v"
    | (b) "fault_rule ops r st = Some v"
    | (c) "suppression_rule ops r = Some v"
    | (d) "v = fallback ops r"
    by blast
  then show ?thesis
  proof cases
    case a
    with assms(1) show ?thesis
      by (auto simp: theft_signature_rule_def Let_def split: option.splits if_splits)
  next
    case b
    with assms(1) show ?thesis
      by (auto simp: fault_rule_def split: option.splits if_splits)
  next
    case c
    with assms(1) show ?thesis
      by (auto simp: suppression_rule_def split: option.splits if_splits)
  next
    case d
    with assms(1) show ?thesis by (simp add: fallback_def)
  qed
qed

text \<open>
  C3.  A row whose voltage is below 0.85 times the baseline mean voltage, whose current
  is above 1.30 times the baseline mean current, and whose power z-score exceeds 3.0 in
  magnitude, is classified \<open>theft\<close> by the first rule, never \<open>fault\<close>.  The meter
  has a line in the baseline table, as for every row the pipeline classifies.
\<close>

theorem theft_precedes_fault:
  assumes "grouped_stats (row_meter_id r) = Some st"
    and "row_voltage r = Some v" and "row_current r = Some c" and "row_power r = Some p"
    and "f_lt ops v (f_mul ops (f_lit ops 0.85) (voltage_mean st))"
    and "f_lt ops (f_mul ops (f_lit ops 1.3) (current_mean st)) c"
    and "f_lt ops (f_lit ops 3.0) (f_abs ops (z_score ops p st))"
  shows "detect_pattern ops r grouped_stats =
           Inr (''theft'', if is_anomaly r then 0.9 else 0.6,
                VoltageDrop v (voltage_mean st) c (current_mean st)) \<and>
         (\<forall>w. detect_pattern ops r grouped_stats = Inr w \<longrightarrow> fst w \<noteq> ''fault'')"
  using assms by (simp add: detect_pattern_def theft_signature_rule_def)

lemma exact_ops:
  "f_lit exact = Num" "f_lt exact = num_lt" "f_mul exact = num_mul" "f_sub exact = num_sub"
  "f_div exact = num_div" "f_abs exact = num_abs" "f_round exact = num_round"
  "f_ratio exact = num_ratio" "f_mean exact = col_mean" "f_std exact = col_std"
  by (simp_all add: exact_def)

lemma example_z_score:
  "z_score exact (Num 9.5) example_stats = Num 4.5"
  "z_score exact (Num 2) example_stats = Num (- 3)"
  by (simp_all add: z_score_def py_max_def exact_ops example_stats_def)

theorem theft_precedes_fault_witness:
  "detect_pattern exact
     (example_series (Some (Num 190)) (Some (Num 14)) (Some (Num 9.5)) (Some (Num 5))
        (Some 1) (Some (Num 0)))
     example_grouped_stats =
     Inr (''theft'', 0.6, VoltageDrop (Num 190) (Num 230) (Num 14) (Num 10)) \<and>
   fault_rule exact
     (example_series (Some (Num 190)) (Some (Num 14)) (Some (Num 9.5)) (Some (Num 5))
        (Some 1) (Some (Num 0)))
     example_stats =
     Some (''fault'', 0.4, PowerSpike (Num 9.5) (Num 4.5))"
proof -
  let ?r = "example_series (Some (Num 190)) (Some (Num 14)) (Some (Num 9.5)) (Some (Num 5))
        (Some 1) (Some (Num 0))"
  have h1: "example_grouped_stats (row_meter_id ?r) = Some example_stats"
    by (simp add: example_grouped_stats_def example_series_def)
  have h2: "row_voltage ?r = Some (Num 190)"
    and h3: "row_current ?r = Some (Num 14)"
    and h4: "row_power ?r = Some (Num 9.5)"
    by (simp_all add: example_series_def)
  have h5: "f_lt exact (Num 190) (f_mul exact (f_lit exact 0.85) (voltage_mean example_stats))"
    and h6: "f_lt exact (f_mul exact (f_lit exact 1.3) (current_mean example_stats)) (Num 14)"
    by (simp_all add: example_stats_def exact_ops)
  have h7: "f_lt exact (f_lit exact 3.0) (f_abs exact (z_score exact (Num 9.5) example_stats))"
    using example_z_score by (simp add: exact_ops)
  have a: "\<not> is_anomaly ?r"
    by (simp add: is_anomaly_def example_series_def)
  have "detect_pattern exact ?r example_grouped_stats =
     Inr (''theft'', 0.6, VoltageDrop (Num 190) (Num 230) (Num 14) (Num 10))"
    using theft_precedes_fault [of example_grouped_stats ?r example_stats,
        OF h1 h2 h3 h4 h5 h6 h7] a
    by (simp add: example_stats_def)
  moreover have "fault_rule exact ?r example_stats =
     Some (''fault'', 0.4, PowerSpike (Num 9.5) (Num 4.5))"
    using h4 h7 a example_z_score by (simp add: fault_rule_def)
  ultimately show ?thesis by simp
qed

text \<open>
  C10.  For a row whose meter has a baseline the classifier returns a verdict, and the
  rules whose fields are absent are passed over while the remaining ones decide:
  \<^item> with the voltage or the current field absent, a power spike gives \<open>fault\<close>, else a
    low ratio to the rolling average gives \<open>theft\<close> by suppression, else the row is an
    outlier or normal;
  \<^item> with the power field absent, the electrical signature gives \<open>theft\<close>, else the row
    is an outlier or normal, whatever the rolling average;
  \<^item> with the rolling-average field absent, the electrical signature gives \<open>theft\<close>,
    else a power spike gives \<open>fault\<close>, else the row is an outlier or normal.
\<close>

theorem absent_fields_skip_rules:
  assumes "grouped_stats (row_meter_id r) = Some st"
  shows
    "let result = detect_pattern ops r grouped_stats;
         signature = (\<lambda>v c. f_lt ops v (f_mul ops (f_lit ops 0.85) (voltage_mean st)) \<and>
                             f_lt ops (f_mul ops (f_lit ops 1.3) (current_mean st)) c);
         spike = (\<lambda>p. f_lt ops (f_lit ops 3.0) (f_abs ops (z_score ops p st)));
         low = (\<lambda>p ra. f_lt ops (power_ratio ops p ra) (f_lit ops 0.5));
         by_signature = (\<lambda>v c. Inr (''theft'', if is_anomaly r then 0.9 else 0.6,
                                     VoltageDrop v (voltage_mean st) c (current_mean st)));
         by_spike = (\<lambda>p. Inr (''fault'', if is_anomaly r then 0.7 else 0.4,
                               PowerSpike p (z_score ops p st)));
         by_suppression = (\<lambda>p ra. Inr (''theft'', if is_anomaly r then 0.8 else 0.5,
                               LowConsumption (f_mul ops (power_ratio ops p ra) (f_lit ops 100)) p ra));
         by_default = Inr (if is_anomaly r
                           then (''anomaly'', 0.5, AIAnomaly (get_anomaly_score ops r))
                           else (''normal'', 0.0, NormalOperation))
     in (\<exists>w. result = Inr w) \<and>
        (row_voltage r = None \<or> row_current r = None \<longrightarrow>
           (row_power r = None \<longrightarrow> result = by_default) \<and>
           (row_power r = Some p \<and> spike p \<longrightarrow> result = by_spike p) \<and>
           (row_power r = Some p \<and> \<not> spike p \<and> row_rolling_avg_power r = None \<longrightarrow>
              result = by_default) \<and>
           (row_power r = Some p \<and> \<not> spike p \<and> row_rolling_avg_power r = Some ra \<and> low p ra \<longrightarrow>
              result = by_suppression p ra) \<and>
           (row_power r = Some p \<and> \<not> spike p \<and> row_rolling_avg_power r = Some ra \<and> \<not> low p ra \<longrightarrow>
              result = by_default)) \<and>
        (row_power r = None \<and> row_voltage r = Some v \<and> row_current r = Some c \<longrightarrow>
           (signature v c \<longrightarrow> result = by_signature v c) \<and>
           (\<not> signature v c \<longrightarrow> result = by_default)) \<and>
        (row_rolling_avg_power r = None \<and> row_power r = Some p \<and>
         row_voltage r = Some v \<and> row_current r = Some c \<longrightarrow>
           (signature v c \<longrightarrow> result = by_signature v c) \<and>
           (\<not> signature v c \<and> spike p \<longrightarrow> result = by_spike p) \<and>
           (\<not> signature v c \<and> \<not> spike p \<longrightarrow> result = by_default))"
proof -
  have ex: "\<exists>w. detect_pattern ops r grouped_stats = Inr w"
    using assms by (intro detect_pattern_total) simp
  have t_none: "row_voltage r = None \<or> row_current r = None \<Longrightarrow>
      theft_signature_rule ops r st = None"
    by (auto simp: theft_signature_rule_def split: option.splits)
  have f_none: "row_power r = None \<Longrightarrow> fault_rule ops r st = None"
    by (simp add: fault_rule_def)
  have s_none: "row_power r = None \<or> row_rolling_avg_power r = None \<Longrightarrow>
      suppression_rule ops r = None"
    by (auto simp: suppression_rule_def split: option.splits)
  have t_some: "\<And>v c. row_voltage r = Some v \<Longrightarrow> row_current r = Some c \<Longrightarrow>
      theft_signature_rule ops r st =
        (if f_lt ops v (f_mul ops (f_lit ops 0.85) (voltage_mean st)) \<and>
            f_lt ops (f_mul ops (f_lit ops 1.3) (current_mean st)) c
         then Some (''theft'', if is_anomaly r then 0.9 else 0.6,
                    VoltageDrop v (voltage_mean st) c (current_mean st))
         else None)"
    by (simp add: theft_signature_rule_def)
  have f_some: "\<And>p. row_power r = Some p \<Longrightarrow>
      fault_rule ops r st =
        (if f_lt ops (f_lit ops 3.0) (f_abs ops (z_score ops p st))
         then Some (''fault'', if is_anomaly r then 0.7 else 0.4, PowerSpike p (z_score ops p st))
         else None)"
    by (simp add: fault_rule_def)
  have s_some: "\<And>p ra. row_power r = Some p \<Longrightarrow> row_rolling_avg_power r = Some ra \<Longrightarrow>
      suppression_rule ops r =
        (if f_lt ops (power_ratio ops p ra) (f_lit ops 0.5)
         then Some (''theft'', if is_anomaly r then 0.8 else 0.5,
                    LowConsumption (f_mul ops (power_ratio ops p ra) (f_lit ops 100)) p ra)
         else None)"
    by (simp add: suppression_rule_def)
  have d: "detect_pattern ops r grouped_stats =
     (case theft_signature_rule ops r st of
        Some w \<Rightarrow> Inr w
      | None \<Rightarrow>
         (case fault_rule ops r st of
            Some w \<Rightarrow> Inr w
          | None \<Rightarrow>
             (case suppression_rule ops r of
                Some w \<Rightarrow> Inr w
              | None \<Rightarrow> Inr (fallback ops r))))"
    using assms by (simp add: detect_pattern_def)
  show ?thesis
    unfolding Let_def
    apply (intro conjI impI ex)
    apply (auto simp: d t_none f_none s_none t_some f_some s_some fallback_def)
    done
qed

theorem absent_fields_skip_rules_witness:
  "detect_pattern exact
     (example_series None (Some (Num 14)) (Some (Num 9.5)) (Some (Num 5)) (Some 1) (Some (Num 0)))
     example_grouped_stats = Inr (''fault'', 0.4, PowerSpike (Num 9.5) (Num 4.5)) \<and>
   detect_pattern exact
     (example_series None None (Some (Num 2)) (Some (Num 5)) (Some 1) (Some (Num 0)))
     example_grouped_stats =
       Inr (''theft'', 0.5, LowConsumption (Num 40) (Num 2) (Num 5)) \<and>
   detect_pattern exact
     (example_series (Some (Num 190)) (Some (Num 14)) None (Some (Num 5)) (Some 1) (Some (Num 0)))
     example_grouped_stats =
       Inr (''theft'', 0.6, VoltageDrop (Num 190) (Num 230) (Num 14) (Num 10)) \<and>
   detect_pattern exact
     (example_series (Some (Num 230)) (Some (Num 10)) None (Some (Num 5)) (Some (- 1))
        (Some (Num (- 0.25))))
     example_grouped_stats = Inr (''anomaly'', 0.5, AIAnomaly (Num (- 0.25))) \<and>
   detect_pattern exact
     (example_series (Some (Num 230)) (Some (Num 10)) (Some (Num 9.5)) None (Some 1) (Some (Num 0)))
     example_grouped_stats = Inr (''fault'', 0.4, PowerSpike (Num 9.5) (Num 4.5)) \<and>
   detect_pattern exact (example_series None None None None None None) example_grouped_stats =
     Inr (''normal'', 0, NormalOperation)"
proof -
  have gs: "\<And>v c p ra pr sc.
      example_grouped_stats (row_meter_id (example_series v c p ra pr sc)) = Some example_stats"
    by (simp add: example_grouped_stats_def example_series_def)
  have ratio: "power_ratio exact (Num 2) (Num 5) = Num 0.4"
    by (simp add: power_ratio_def py_max_def exact_ops)
  note z = example_z_score
  have "detect_pattern exact
     (example_series None (Some (Num 14)) (Some (Num 9.5)) (Some (Num 5)) (Some 1) (Some (Num 0)))
     example_grouped_stats = Inr (''fault'', 0.4, PowerSpike (Num 9.5) (Num 4.5))"
    using absent_fields_skip_rules [where ops = exact
          and grouped_stats = example_grouped_stats
          and st = example_stats
          and r = "example_series None (Some (Num 14)) (Some (Num 9.5)) (Some (Num 5)) (Some 1) (Some (Num 0))"
          and p = "Num 9.5",
        OF gs] z
    by (simp add: Let_def example_series_def is_anomaly_def exact_ops)
  moreover have "detect_pattern exact
     (example_series None None (Some (Num 2)) (Some (Num 5)) (Some 1) (Some (Num 0)))
     example_grouped_stats =
       Inr (''theft'', 0.5, LowConsumption (Num 40) (Num 2) (Num 5))"
    using absent_fields_skip_rules [where ops = exact
          and grouped_stats = example_grouped_stats
          and st = example_stats
          and r = "example_series None None (Some (Num 2)) (Some (Num 5)) (Some 1) (Some (Num 0))"
          and p = "Num 2"
          and ra = "Num 5",
        OF gs] z ratio
    by (simp add: Let_def example_series_def is_anomaly_def exact_ops)
  moreover have "detect_pattern exact
     (example_series (Some (Num 190)) (Some (Num 14)) None (Some (Num 5)) (Some 1) (Some (Num 0)))
     example_grouped_stats =
       Inr (''theft'', 0.6, VoltageDrop (Num 190) (Num 230) (Num 14) (Num 10))"
    using absent_fields_skip_rules [where ops = exact
          and grouped_stats = example_grouped_stats
          and st = example_stats
          and r = "example_series (Some (Num 190)) (Some (Num 14)) None (Some (Num 5)) (Some 1) (Some (Num 0))"
          and v = "Num 190"
          and c = "Num 14",
        OF gs]
    by (simp add: Let_def example_series_def is_anomaly_def exact_ops example_stats_def)
  moreover have "detect_pattern exact
     (example_series (Some (Num 230)) (Some (Num 10)) None (Some (Num 5)) (Some (- 1))
        (Some (Num (- 0.25))))
     example_grouped_stats = Inr (''anomaly'', 0.5, AIAnomaly (Num (- 0.25)))"
    using absent_fields_skip_rules [where ops = exact
          and grouped_stats = example_grouped_stats
          and st = example_stats
          and r = "example_series (Some (Num 230)) (Some (Num 10)) None (Some (Num 5)) (Some (- 1)) (Some (Num (- 0.25)))"
          and v = "Num 230"
          and c = "Num 10",
        OF gs]
    by (simp add: Let_def example_series_def is_anomaly_def get_anomaly_score_def exact_ops
        example_stats_def)
  moreover have "detect_pattern exact
     (example_series (Some (Num 230)) (Some (Num 10)) (Some (Num 9.5)) None (Some 1) (Some (Num 0)))
     example_grouped_stats = Inr (''fault'', 0.4, PowerSpike (Num 9.5) (Num 4.5))"
    using absent_fields_skip_rules [where ops = exact
          and grouped_stats = example_grouped_stats
          and st = example_stats
          and r = "example_series (Some (Num 230)) (Some (Num 10)) (Some (Num 9.5)) None (Some 1) (Some (Num 0))"
          and p = "Num 9.5"
          and v = "Num 230"
          and c = "Num 10",
        OF gs] z
    by (simp add: Let_def example_series_def is_anomaly_def exact_ops example_stats_def)
  moreover have "detect_pattern exact (example_series None None None None None None)
     example_grouped_stats = Inr (''normal'', 0, NormalOperation)"
    using absent_fields_skip_rules [where ops = exact
          and grouped_stats = example_grouped_stats
          and st = example_stats
          and r = "example_series None None None None None None",
        OF gs]
    by (simp add: Let_def example_series_def is_anomaly_def)
  ultimately show ?thesis by blast
qed

section \<open>Properties of the aggregator\<close>

text \<open>
  The overload share of a line depends on the table only through the meter, power,
  transformer and timestamp columns, which the aggregator does not write.
\<close>

lemma meter_mean_power_map:
  assumes "\<And>x. meter_id (h x) = meter_id x" and "\<And>x. power_kw (h x) = power_kw x"
  shows "meter_mean_power ops (map h df) m = meter_mean_power ops df m"
  by (simp add: meter_mean_power_def filter_map o_def assms)

lemma high_load_map:
  assumes "\<And>x. meter_id (h x) = meter_id x" and "\<And>x. power_kw (h x) = power_kw x"
  shows "high_load ops (map h df) (h r) = high_load ops df r"
  by (simp add: high_load_def meter_mean_power_map [of h, OF assms] assms)

lemma group_of_map:
  assumes "\<And>x. transformer_id (h x) = transformer_id x"
    and "\<And>x. timestamp (h x) = timestamp x"
  shows "group_of (map h df) t ts = map h (group_of df t ts)"
  by (simp add: group_of_def filter_map o_def assms)

lemma group_fraction_map:
  assumes "\<And>x. meter_id (h x) = meter_id x" and "\<And>x. power_kw (h x) = power_kw x"
    and "\<And>x. transformer_id (h x) = transformer_id x"
    and "\<And>x. timestamp (h x) = timestamp x"
  shows "group_fraction ops (map h df) t ts = group_fraction ops df t ts"
proof -
  have hl: "high_load ops (map h df) \<circ> h = high_load ops df"
    using high_load_map [of h ops df, OF assms(1,2)] by (simp add: fun_eq_iff)
  show ?thesis
    by (simp add: group_fraction_def group_of_map [OF assms(3,4)] filter_map hl)
qed

lemma overload_pct_map:
  assumes "\<And>x. meter_id (h x) = meter_id x" and "\<And>x. power_kw (h x) = power_kw x"
    and "\<And>x. transformer_id (h x) = transformer_id x"
    and "\<And>x. timestamp (h x) = timestamp x"
  shows "overload_pct ops (map h df) (h r) = overload_pct ops df r"
  by (simp add: overload_pct_def assms(3,4) group_fraction_map [of h, OF assms]
      split: option.splits)

lemma override_row_keys:
  "meter_id (override_row ops df th r) = meter_id r"
  "power_kw (override_row ops df th r) = power_kw r"
  "transformer_id (override_row ops df th r) = transformer_id r"
  "timestamp (override_row ops df th r) = timestamp r"
  by (simp_all add: override_row_def force_overload_def split: option.splits)

lemma override_row_twice:
  "override_row ops (map (override_row ops df th) df) th (override_row ops df th r) =
     override_row ops df th r"
proof -
  have pct: "overload_pct ops (map (override_row ops df th) df) (override_row ops df th r) =
      overload_pct ops df r"
    by (rule overload_pct_map) (rule override_row_keys)+
  show ?thesis
    unfolding override_row_def [of ops "map (override_row ops df th) df"] pct
    by (simp add: override_row_def force_overload_def split: option.splits)
qed

lemma check_transformer_overload_Inr:
  assumes "check_transformer_overload ops df th = Inr out"
  shows "has_transformer_id out = has_transformer_id df"
    and "\<not> has_transformer_id df \<Longrightarrow> out = df"
    and "has_transformer_id df \<Longrightarrow>
           rows out = map (override_row ops (rows df) th) (rows df)"
    and "has_transformer_id df \<Longrightarrow>
           \<not> (rows df \<noteq> [] \<and> list_all (\<lambda>r. transformer_id r = None) (rows df))"
  using assms by (auto simp: check_transformer_overload_def split: if_splits)

text \<open>
  C7.  The aggregator is idempotent: whenever it returns a table, for whatever
  threshold, running it again on that table returns the same table.
\<close>

theorem check_transformer_overload_idempotent:
  assumes "check_transformer_overload ops df threshold = Inr out"
  shows "check_transformer_overload ops out threshold = Inr out"
proof (cases "has_transformer_id df")
  case False
  with assms have "out = df" by (simp add: check_transformer_overload_def)
  with assms show ?thesis by simp
next
  case True
  note c = check_transformer_overload_Inr [OF assms]
  from c(1) True have h: "has_transformer_id out" by simp
  from c(3) [OF True] have r: "rows out = map (override_row ops (rows df) threshold) (rows df)" .
  from c(4) [OF True] have "\<not> (rows df \<noteq> [] \<and> list_all (\<lambda>r. transformer_id r = None) (rows df))" .
  then have n: "\<not> (rows out \<noteq> [] \<and> list_all (\<lambda>r. transformer_id r = None) (rows out))"
    by (simp add: r list_all_iff override_row_keys)
  have "map (override_row ops (rows out) threshold) (rows out) = rows out"
    by (simp add: r override_row_twice)
  with h n show ?thesis
    by (simp add: check_transformer_overload_def)
qed

lemma override_row_frame:
  "override_row ops df th r =
     r\<lparr> pattern := pattern (override_row ops df th r),
        risk_score := risk_score (override_row ops df th r),
        explanation := explanation (override_row ops df th r) \<rparr>"
  by (simp add: override_row_def force_overload_def split: option.splits)

lemma override_row_no_transformer:
  "transformer_id r = None \<Longrightarrow> override_row ops df th r = r"
  by (simp add: override_row_def overload_pct_def)

lemma override_row_transformer:
  "transformer_id r = Some t \<Longrightarrow>
     override_row ops df th r =
       (if f_lt ops th (group_fraction ops df t (timestamp r))
        then force_overload ops (group_fraction ops df t (timestamp r)) r else r)"
  by (simp add: override_row_def overload_pct_def)

lemma check_transformer_overload_returns:
  assumes "has_transformer_id df" and "r \<in> set (rows df)" and "transformer_id r = Some t"
  shows "check_transformer_overload ops df th =
           Inr (df\<lparr> rows := map (override_row ops (rows df) th) (rows df) \<rparr>)"
proof -
  from assms(2,3) have "\<not> list_all (\<lambda>r. transformer_id r = None) (rows df)"
    by (auto simp: list_all_iff)
  with assms(1) show ?thesis by (simp add: check_transformer_overload_def)
qed


text \<open>
  Whenever the aggregator returns, it keeps the column set, the number of lines and
  their order; a line of the result is the line at the same position of the input with at
  most its pattern, risk score and explanation replaced, and it differs from the input
  line only if the table has the column, the line has a transformer and the share of its
  group is above the threshold.
\<close>

lemma overload_frame:
  assumes "check_transformer_overload ops df th = Inr out"
  shows "has_transformer_id out = has_transformer_id df \<and>
         length (rows out) = length (rows df) \<and>
         (\<forall>i < length (rows df).
            rows out ! i =
              (rows df ! i)\<lparr> pattern := pattern (rows out ! i),
                 risk_score := risk_score (rows out ! i),
                 explanation := explanation (rows out ! i) \<rparr> \<and>
            (rows out ! i \<noteq> rows df ! i \<longrightarrow>
               has_transformer_id df \<and>
               (\<exists>t. transformer_id (rows df ! i) = Some t \<and>
                    f_lt ops th (group_fraction ops (rows df) t (timestamp (rows df ! i))))) \<and>
            (\<not> has_transformer_id df \<or> transformer_id (rows df ! i) = None \<longrightarrow>
               rows out ! i = rows df ! i))"
proof (cases "has_transformer_id df")
  case False
  with assms have "out = df" by (simp add: check_transformer_overload_def)
  then show ?thesis by simp
next
  case True
  note c = check_transformer_overload_Inr [OF assms]
  have r: "rows out = map (override_row ops (rows df) th) (rows df)"
    using c(3) True by simp
  have "\<forall>i < length (rows df).
      override_row ops (rows df) th (rows df ! i) =
        (rows df ! i)\<lparr> pattern := pattern (override_row ops (rows df) th (rows df ! i)),
           risk_score := risk_score (override_row ops (rows df) th (rows df ! i)),
           explanation := explanation (override_row ops (rows df) th (rows df ! i)) \<rparr> \<and>
      (override_row ops (rows df) th (rows df ! i) \<noteq> rows df ! i \<longrightarrow>
         (\<exists>t. transformer_id (rows df ! i) = Some t \<and>
              f_lt ops th (group_fraction ops (rows df) t (timestamp (rows df ! i))))) \<and>
      (transformer_id (rows df ! i) = None \<longrightarrow>
         override_row ops (rows df) th (rows df ! i) = rows df ! i)"
    using override_row_frame [of ops "rows df" th]
    by (auto simp: override_row_def overload_pct_def split: option.splits)
  with True c(1) show ?thesis by (simp add: r)
qed

text \<open>
  C9 fails on a table that has the \<open>transformer_id\<close> column and at least one line
  when the cell is missing in every line: the aggregator raises instead of returning the
  table untouched.  The same line in a table without the column passes through.
\<close>

theorem overload_all_missing_raises:
  "check_transformer_overload exact unmapped_decisions (Num 0.7) = Inl TypeError \<and>
   check_transformer_overload exact columnless_decisions (Num 0.7) = Inr columnless_decisions"
  by (simp add: check_transformer_overload_def unmapped_decisions_def columnless_decisions_def
      example_decision_def example_line_def example_reading_def add_decision_def
      add_outlier_verdict_def reading.defs scored.defs decision.defs)

text \<open>The aggregator on the example tables, under exact arithmetic.\<close>

lemma example_line_keys:
  "meter_id (example_line m ts t p v) = m"
  "timestamp (example_line m ts t p v) = ts"
  "transformer_id (example_line m ts t p v) = t"
  "power_kw (example_line m ts t p v) = Num p"
  by (simp_all add: example_line_def example_reading_def add_decision_def
      add_outlier_verdict_def reading.defs scored.defs decision.defs split: prod.splits)

lemma example_decision_keys:
  "meter_id (example_decision m ts t p) = m"
  "timestamp (example_decision m ts t p) = ts"
  "transformer_id (example_decision m ts t p) = t"
  "power_kw (example_decision m ts t p) = Num p"
  by (simp_all add: example_decision_def example_line_keys)

lemma grid_mean:
  "m \<in> {''M1'', ''M2'', ''M3'', ''M4''} \<Longrightarrow>
     meter_mean_power exact (rows grid_decisions) m = Num 2"
  by (auto simp: meter_mean_power_def grid_decisions_def example_decision_keys
      example_line_keys exact_ops col_mean_def)

lemma grid_high_load:
  "m \<in> {''M1'', ''M2'', ''M3'', ''M4''} \<Longrightarrow>
     high_load exact (rows grid_decisions) (example_line m ts t p v) = (2.4 < p)"
  "m \<in> {''M1'', ''M2'', ''M3'', ''M4''} \<Longrightarrow>
     high_load exact (rows grid_decisions) (example_decision m ts t p) = (2.4 < p)"
  by (simp_all add: high_load_def grid_mean example_line_keys example_decision_keys exact_ops)

lemma grid_fraction:
  "group_fraction exact (rows grid_decisions) ''T1'' 1 = Num 0"
  "group_fraction exact (rows grid_decisions) ''T1'' 2 = Num 0.75"
proof -
  have g1: "group_of (rows grid_decisions) ''T1'' 1 = take 4 (rows grid_decisions)"
    and g2: "group_of (rows grid_decisions) ''T1'' 2 = drop 4 (rows grid_decisions)"
    by (simp_all add: group_of_def grid_decisions_def example_decision_keys example_line_keys)
  have t1: "take 4 (rows grid_decisions) =
      [example_decision ''M1'' 1 (Some ''T1'') 1, example_decision ''M2'' 1 (Some ''T1'') 1,
       example_decision ''M3'' 1 (Some ''T1'') 1, example_decision ''M4'' 1 (Some ''T1'') 2]"
    and t2: "drop 4 (rows grid_decisions) =
      [example_decision ''M1'' 2 (Some ''T1'') 3, example_decision ''M2'' 2 (Some ''T1'') 3,
       example_decision ''M3'' 2 (Some ''T1'') 3,
       example_line ''M4'' 2 (Some ''T1'') 2 (''theft'', 0.5, Text ''set by the classifier'')]"
    by (simp_all add: grid_decisions_def)
  show "group_fraction exact (rows grid_decisions) ''T1'' 1 = Num 0"
    unfolding group_fraction_def g1 t1
    by (simp add: grid_high_load exact_ops num_ratio_def)
  show "group_fraction exact (rows grid_decisions) ''T1'' 2 = Num 0.75"
    unfolding group_fraction_def g2 t2
    by (simp add: grid_high_load exact_ops num_ratio_def)
qed

lemma grid_overload:
  "check_transformer_overload exact grid_decisions (Num 0.7) = Inr grid_overloaded"
proof -
  have "has_transformer_id grid_decisions"
    and "example_decision ''M1'' 1 (Some ''T1'') 1 \<in> set (rows grid_decisions)"
    and "transformer_id (example_decision ''M1'' 1 (Some ''T1'') 1) = Some ''T1''"
    by (simp_all add: grid_decisions_def example_decision_keys)
  then have "check_transformer_overload exact grid_decisions (Num 0.7) =
      Inr (grid_decisions\<lparr> rows :=
             map (override_row exact (rows grid_decisions) (Num 0.7)) (rows grid_decisions) \<rparr>)"
    by (rule check_transformer_overload_returns)
  moreover have "map (override_row exact (rows grid_decisions) (Num 0.7))
      [example_decision ''M1'' 1 (Some ''T1'') 1,
               example_decision ''M2'' 1 (Some ''T1'') 1,
               example_decision ''M3'' 1 (Some ''T1'') 1,
               example_decision ''M4'' 1 (Some ''T1'') 2,
               example_decision ''M1'' 2 (Some ''T1'') 3,
               example_decision ''M2'' 2 (Some ''T1'') 3,
               example_decision ''M3'' 2 (Some ''T1'') 3,
               example_line ''M4'' 2 (Some ''T1'') 2
                 (''theft'', 0.5, Text ''set by the classifier'')] = rows grid_overloaded"
    using grid_fraction
    by (simp add: override_row_transformer [where t = "''T1''"] example_decision_keys
        example_line_keys exact_ops grid_overloaded_def)
  ultimately show ?thesis
    by (simp add: grid_decisions_def grid_overloaded_def)
qed

theorem check_transformer_overload_idempotent_witness:
  "check_transformer_overload exact grid_decisions (Num 0.7) = Inr grid_overloaded \<and>
   check_transformer_overload exact grid_overloaded (Num 0.7) = Inr grid_overloaded"
  using check_transformer_overload_idempotent [OF grid_overload] grid_overload by simp


section \<open>Properties of the pipeline\<close>

text \<open>
  Every meter of the batch has a baseline, so the classifier never raises inside the
  pipeline, and every line of the result is a classified line, possibly overridden.
\<close>

lemma classify_rows_Inr:
  "classify_rows ops gs df = Inr ds \<Longrightarrow> d \<in> set ds \<Longrightarrow>
     \<exists>r \<in> set df. \<exists>v. detect_pattern ops (to_row r) gs = Inr v \<and> d = add_decision r v"
proof (induction df arbitrary: ds)
  case Nil
  then show ?case by simp
next
  case (Cons r rs)
  from Cons.prems(1) obtain v ds' where v: "detect_pattern ops (to_row r) gs = Inr v"
    and ds': "classify_rows ops gs rs = Inr ds'" and ds: "ds = add_decision r v # ds'"
    by (auto split: sum.splits)
  show ?case
  proof (cases "d = add_decision r v")
    case True
    with v show ?thesis by (intro bexI [of _ r] exI [of _ v]) simp_all
  next
    case False
    with Cons.prems(2) ds have "d \<in> set ds'" by simp
    from Cons.IH [OF ds' this] show ?thesis by (meson list.set_intros(2))
  qed
qed

lemma add_decision_fields:
  "pattern (add_decision s v) = fst v"
  "risk_score (add_decision s v) = fst (snd v)"
  "explanation (add_decision s v) = snd (snd v)"
  "prediction (add_decision s v) = prediction s"
  "anomaly_score (add_decision s v) = anomaly_score s"
  "transformer_id (add_decision s v) = transformer_id s"
  by (simp_all add: add_decision_def scored.defs decision.defs split: prod.splits)

lemma add_outlier_verdict_fields:
  "meter_id (add_outlier_verdict ops model r) = meter_id r"
  "transformer_id (add_outlier_verdict ops model r) = transformer_id r"
  by (simp_all add: add_outlier_verdict_def reading.defs scored.defs split: option.splits)

lemma classify_rows_total:
  "\<forall>r \<in> set df. gs (meter_id r) \<noteq> None \<Longrightarrow>
     \<exists>ds. classify_rows ops gs df = Inr ds \<and> map transformer_id ds = map transformer_id df"
proof (induction df)
  case Nil
  then show ?case by simp
next
  case (Cons r rs)
  then obtain ds where ds: "classify_rows ops gs rs = Inr ds"
    and t: "map transformer_id ds = map transformer_id rs" by auto
  from Cons.prems have "gs (row_meter_id (to_row r)) \<noteq> None"
    by (simp add: to_row_def)
  then obtain v where "detect_pattern ops (to_row r) gs = Inr v"
    using detect_pattern_total by blast
  with ds t show ?case by (simp add: add_decision_fields)
qed

lemma build_grouped_stats_member:
  "r \<in> set df \<Longrightarrow> build_grouped_stats ops df (meter_id r) \<noteq> None"
  by (auto simp: build_grouped_stats_def Let_def filter_empty_conv)

text \<open>
  The pipeline returns on every batch that has a line, unless the batch has the
  \<open>transformer_id\<close> column with every cell missing.
\<close>

lemma analyze_patterns_total:
  assumes "rows processed \<noteq> []"
    and "\<not> has_transformer_id processed \<or> (\<exists>r \<in> set (rows processed). transformer_id r \<noteq> None)"
  shows "\<exists>d. analyze_patterns ops processed model = Inr d"
proof -
  let ?df = "map (add_outlier_verdict ops model) (rows processed)"
  have "\<forall>r \<in> set ?df. build_grouped_stats ops ?df (meter_id r) \<noteq> None"
    using build_grouped_stats_member by blast
  then obtain ds where ds: "classify_rows ops (build_grouped_stats ops ?df) ?df = Inr ds"
    and "map transformer_id ds = map transformer_id ?df"
    using classify_rows_total by blast
  then have t: "map transformer_id ds = map transformer_id (rows processed)"
    by (simp add: add_outlier_verdict_fields o_def)
  let ?tbl = "\<lparr> has_transformer_id = has_transformer_id processed, rows = ds \<rparr>"
  have "\<exists>d. check_transformer_overload ops ?tbl (f_lit ops 0.7) = Inr d"
  proof (cases "has_transformer_id processed")
    case False
    then show ?thesis by (simp add: check_transformer_overload_def)
  next
    case True
    with assms(2) obtain r where "r \<in> set (rows processed)" and "transformer_id r \<noteq> None"
      by blast
    then have "\<exists>x \<in> set (map transformer_id (rows processed)). x \<noteq> None" by auto
    with t have "\<exists>x \<in> set (map transformer_id ds). x \<noteq> None" by simp
    then have "\<not> list_all (\<lambda>r. transformer_id r = None) ds"
      by (auto simp: list_all_iff)
    then show ?thesis by (simp add: check_transformer_overload_def)
  qed
  with assms(1) ds show ?thesis
    by (simp add: analyze_patterns_def Let_def)
qed

lemma override_row_cases:
  "override_row ops df th r = r \<or> (\<exists>pct. override_row ops df th r = force_overload ops pct r)"
  by (auto simp: override_row_def split: option.splits)

lemma check_transformer_overload_rows_cases:
  assumes "check_transformer_overload ops df th = Inr out" and "d \<in> set (rows out)"
  shows "\<exists>r \<in> set (rows df). d = r \<or> (\<exists>pct. d = force_overload ops pct r)"
proof (cases "has_transformer_id df")
  case False
  with assms show ?thesis by (auto simp: check_transformer_overload_def)
next
  case True
  from check_transformer_overload_Inr(3) [OF assms(1) True] assms(2)
  obtain r where "r \<in> set (rows df)" and "d = override_row ops (rows df) th r"
    by auto
  with override_row_cases [of ops "rows df" th r] show ?thesis by auto
qed

lemma analyze_patterns_rows:
  assumes "analyze_patterns ops processed model = Inr out" and "d \<in> set (rows out)"
  shows "\<exists>r \<in> set (rows processed). \<exists>gs v.
           detect_pattern ops (to_row (add_outlier_verdict ops model r)) gs = Inr v \<and>
           (d = add_decision (add_outlier_verdict ops model r) v \<or>
            (\<exists>pct. d = force_overload ops pct (add_decision (add_outlier_verdict ops model r) v)))"
proof -
  let ?df = "map (add_outlier_verdict ops model) (rows processed)"
  let ?gs = "build_grouped_stats ops ?df"
  from assms(1) obtain ds where ds: "classify_rows ops ?gs ?df = Inr ds"
    and out: "check_transformer_overload ops
                \<lparr> has_transformer_id = has_transformer_id processed, rows = ds \<rparr>
                (f_lit ops 0.7) = Inr out"
    by (auto simp: analyze_patterns_def Let_def split: if_splits sum.splits)
  from check_transformer_overload_rows_cases [OF out assms(2)]
  obtain d0 where d0: "d0 \<in> set ds"
    and d: "d = d0 \<or> (\<exists>pct. d = force_overload ops pct d0)"
    by auto
  from classify_rows_Inr [OF ds d0] obtain s v where "s \<in> set ?df"
    and "detect_pattern ops (to_row s) ?gs = Inr v" and "d0 = add_decision s v"
    by blast
  moreover from \<open>s \<in> set ?df\<close> obtain r where "r \<in> set (rows processed)"
    and "s = add_outlier_verdict ops model r" by auto
  ultimately show ?thesis using d by blast
qed

lemma force_overload_fields:
  "pattern (force_overload ops pct d) = ''transformer_overload''"
  "risk_score (force_overload ops pct d) = 0.85"
  "explanation (force_overload ops pct d) = OverloadMessage (f_round ops (f_mul ops pct (f_lit ops 100)))"
  "prediction (force_overload ops pct d) = prediction d"
  "anomaly_score (force_overload ops pct d) = anomaly_score d"
  by (simp_all add: force_overload_def)

lemma add_alert_fields:
  "alert (add_alert d) = (pattern d \<noteq> ''normal'')"
  "pattern (add_alert d) = pattern d"
  "risk_score (add_alert d) = risk_score d"
  "explanation (add_alert d) = explanation d"
  "prediction (add_alert d) = prediction d"
  "anomaly_score (add_alert d) = anomaly_score d"
  "timestamp (add_alert d) = timestamp d"
  by (simp_all add: add_alert_def decision.defs alerted.defs)

lemma add_outlier_verdict_None:
  "prediction (add_outlier_verdict ops None r) = 1"
  "anomaly_score (add_outlier_verdict ops None r) = f_lit ops 0"
  by (simp_all add: add_outlier_verdict_def reading.defs scored.defs)

lemma to_row_prediction: "row_prediction (to_row s) = Some (prediction s)"
  by (simp add: to_row_def)

lemma run_engine_rows:
  assumes "run_engine ops processed model out" and "r \<in> set out"
  shows "\<exists>d out'. analyze_patterns ops processed model = Inr out' \<and> d \<in> set (rows out') \<and>
           r = add_alert d"
proof -
  from assms(1) obtain out' where a: "analyze_patterns ops processed model = Inr out'"
    and s: "sort_values_desc (map add_alert (rows out')) out"
    by (auto simp: run_engine_def split: sum.splits)
  from s have "mset out = mset (map add_alert (rows out'))"
    by (simp add: sort_values_desc_def)
  then have "set out = set (map add_alert (rows out'))"
    by (rule mset_eq_setD)
  with assms(2) a show ?thesis by auto
qed

lemma sort_values_desc_exists: "\<exists>ys. sort_values_desc xs ys"
proof -
  have "sorted (map risk_score (sort_key risk_score xs))"
    by (rule sorted_sort_key)
  then have "sorted_wrt (\<lambda>a b. risk_score a \<le> risk_score b) (sort_key risk_score xs)"
    by (simp only: sorted_map)
  then have "sort_values_desc xs (rev (sort_key risk_score xs))"
    by (simp add: sort_values_desc_def sorted_wrt_rev)
  then show ?thesis ..
qed

lemma run_engine_returns:
  assumes "rows processed \<noteq> []"
    and "\<not> has_transformer_id processed \<or> (\<exists>r \<in> set (rows processed). transformer_id r \<noteq> None)"
  shows "\<exists>out. run_engine ops processed model out"
proof -
  from analyze_patterns_total [OF assms] obtain d
    where d: "analyze_patterns ops processed model = Inr d" by blast
  from sort_values_desc_exists obtain out
    where "sort_values_desc (map add_alert (rows d)) out" by blast
  with d have "run_engine ops processed model out" by (simp add: run_engine_def)
  then show ?thesis ..
qed

text \<open>
  C2.  In the table that \<open>analyze_patterns\<close> returns, after the classifier and the
  aggregator have run, every risk score lies between 0 and 1, and a line whose pattern
  is \<open>normal\<close> has risk score 0.0.
\<close>

theorem risk_score_bounds:
  assumes "analyze_patterns ops processed model = Inr out" and "d \<in> set (rows out)"
  shows "0 \<le> risk_score d \<and> risk_score d \<le> 1 \<and>
         (pattern d = ''normal'' \<longrightarrow> risk_score d = 0.0)"
proof -
  from analyze_patterns_rows [OF assms] obtain s gs v
    where v: "detect_pattern ops (to_row s) gs = Inr v"
      and d: "d = add_decision s v \<or> (\<exists>pct. d = force_overload ops pct (add_decision s v))"
    by blast
  from detect_pattern_ok [OF v] have ok: "verdict_ok v" .
  from d show ?thesis
  proof
    assume "d = add_decision s v"
    with ok show ?thesis by (simp add: add_decision_fields verdict_ok_def)
  next
    assume "\<exists>pct. d = force_overload ops pct (add_decision s v)"
    then show ?thesis by (auto simp: force_overload_fields)
  qed
qed

text \<open>
  C1.  Every line of a table the orchestrator returns carries one pattern, one of the
  five names, and its alert flag is true exactly when the pattern is not \<open>normal\<close>.
\<close>

theorem one_pattern_and_alert:
  assumes "run_engine ops processed model out" and "r \<in> set out"
  shows "pattern r \<in> {''normal'', ''theft'', ''fault'', ''transformer_overload'', ''anomaly''} \<and>
         alert r = (pattern r \<noteq> ''normal'')"
proof -
  from run_engine_rows [OF assms] obtain d out'
    where a: "analyze_patterns ops processed model = Inr out'" and m: "d \<in> set (rows out')"
      and r: "r = add_alert d" by blast
  from analyze_patterns_rows [OF a m] obtain s gs v
    where v: "detect_pattern ops (to_row s) gs = Inr v"
      and d: "d = add_decision s v \<or> (\<exists>pct. d = force_overload ops pct (add_decision s v))"
    by blast
  from detect_pattern_ok [OF v] have ok: "verdict_ok v" .
  from d have "pattern d \<in> {''normal'', ''theft'', ''fault'', ''transformer_overload'', ''anomaly''}"
  proof
    assume "d = add_decision s v"
    with ok show ?thesis by (auto simp: add_decision_fields verdict_ok_def)
  next
    assume "\<exists>pct. d = force_overload ops pct (add_decision s v)"
    then show ?thesis by (auto simp: force_overload_fields)
  qed
  with r show ?thesis by (simp add: add_alert_fields)
qed

text \<open>
  C5.  Without a model, every line of the final table has outlier label 1 (normal) and
  score 0.0, no line has pattern \<open>anomaly\<close>, and the risk that goes with each
  explanation is the one for a row that is not flagged: 0.6 for the electrical
  signature, 0.4 for the power spike, 0.5 for the suppressed consumption.
\<close>

theorem no_model_defaults:
  assumes "run_engine ops processed None out" and "r \<in> set out"
  shows "prediction r = 1 \<and> anomaly_score r = f_lit ops 0.0 \<and> pattern r \<noteq> ''anomaly'' \<and>
         rule_only_decision (pattern r) (risk_score r) (explanation r)"
proof -
  from run_engine_rows [OF assms] obtain d out'
    where a: "analyze_patterns ops processed None = Inr out'" and m: "d \<in> set (rows out')"
      and r: "r = add_alert d" by blast
  from analyze_patterns_rows [OF a m] obtain x gs v
    where v: "detect_pattern ops (to_row (add_outlier_verdict ops None x)) gs = Inr v"
      and d: "d = add_decision (add_outlier_verdict ops None x) v \<or>
              (\<exists>pct. d = force_overload ops pct (add_decision (add_outlier_verdict ops None x) v))"
    by blast
  have "\<not> is_anomaly (to_row (add_outlier_verdict ops None x))"
    by (simp add: is_anomaly_def to_row_prediction add_outlier_verdict_None)
  from detect_pattern_unflagged [OF this v]
  have u: "rule_only_decision (fst v) (fst (snd v)) (snd (snd v))" and n: "fst v \<noteq> ''anomaly''"
    by simp_all
  from d have "prediction d = 1 \<and> anomaly_score d = f_lit ops 0 \<and> pattern d \<noteq> ''anomaly'' \<and>
         rule_only_decision (pattern d) (risk_score d) (explanation d)"
  proof
    assume "d = add_decision (add_outlier_verdict ops None x) v"
    with u n show ?thesis by (simp add: add_decision_fields add_outlier_verdict_None)
  next
    assume "\<exists>pct. d = force_overload ops pct (add_decision (add_outlier_verdict ops None x) v)"
    then show ?thesis
      by (auto simp: force_overload_fields add_decision_fields add_outlier_verdict_None)
  qed
  with r show ?thesis by (simp add: add_alert_fields)
qed

section \<open>The pipeline on the example batch\<close>

lemma example_stats_M1:
  "build_grouped_stats exact (map (add_outlier_verdict exact None) (rows example_processed)) ''M1'' =
     Some \<lparr> voltage_mean = Num 230, voltage_std = Num 0,
            current_mean = Num 10, current_std = Num 0,
            power_mean = Num 2, power_std = Num 1 \<rparr>"
  by (simp add: build_grouped_stats_def example_processed_def example_reading_def
      add_outlier_verdict_def reading.defs scored.defs exact_ops col_mean_def col_std_def
      Let_def power2_eq_square)

lemma example_stats_M2:
  "build_grouped_stats exact (map (add_outlier_verdict exact None) (rows example_processed)) ''M2'' =
     Some \<lparr> voltage_mean = Num 230, voltage_std = NaN,
            current_mean = Num 10, current_std = NaN,
            power_mean = Num 5, power_std = NaN \<rparr>"
  by (simp add: build_grouped_stats_def example_processed_def example_reading_def
      add_outlier_verdict_def reading.defs scored.defs exact_ops col_mean_def col_std_def
      Let_def)

lemma example_detect_M1:
  assumes "gs ''M1'' = Some \<lparr> voltage_mean = Num 230, voltage_std = Num 0,
            current_mean = Num 10, current_std = Num 0,
            power_mean = Num 2, power_std = Num 1 \<rparr>"
    and "p \<in> {1, 2, 3}"
  shows "detect_pattern exact
           (to_row (add_outlier_verdict exact None (example_reading ''M1'' ts t p))) gs =
           Inr (''normal'', 0.0, NormalOperation)"
  using assms
  by (auto simp: detect_pattern_def to_row_def example_reading_def add_outlier_verdict_def
      reading.defs scored.defs theft_signature_rule_def fault_rule_def
      z_score_def py_max_def suppression_rule_def exact_ops
      power_ratio_def fallback_def is_anomaly_def)

lemma example_detect_M2:
  assumes "gs ''M2'' = Some \<lparr> voltage_mean = Num 230, voltage_std = NaN,
            current_mean = Num 10, current_std = NaN,
            power_mean = Num 5, power_std = NaN \<rparr>"
  shows "detect_pattern exact
           (to_row (add_outlier_verdict exact None (example_reading ''M2'' ts t 5))) gs =
           Inr (''normal'', 0.0, NormalOperation)"
  using assms
  by (simp add: detect_pattern_def to_row_def example_reading_def add_outlier_verdict_def
      reading.defs scored.defs theft_signature_rule_def fault_rule_def
      z_score_def py_max_def suppression_rule_def exact_ops
      power_ratio_def fallback_def is_anomaly_def)

lemma example_classify:
  "classify_rows exact
     (build_grouped_stats exact (map (add_outlier_verdict exact None) (rows example_processed)))
     (map (add_outlier_verdict exact None) (rows example_processed)) = Inr (rows example_decisions)"
proof -
  let ?gs = "build_grouped_stats exact (map (add_outlier_verdict exact None) (rows example_processed))"
  have m1: "\<And>ts t p. p \<in> {1, 2, 3} \<Longrightarrow>
      detect_pattern exact (to_row (add_outlier_verdict exact None (example_reading ''M1'' ts t p))) ?gs =
        Inr (''normal'', 0.0, NormalOperation)"
    by (rule example_detect_M1 [of ?gs, OF example_stats_M1])
  have m2: "\<And>ts t.
      detect_pattern exact (to_row (add_outlier_verdict exact None (example_reading ''M2'' ts t 5))) ?gs =
        Inr (''normal'', 0.0, NormalOperation)"
    by (rule example_detect_M2 [of ?gs, OF example_stats_M2])
  have "classify_rows exact ?gs
          (map (add_outlier_verdict exact None)
            [example_reading ''M1'' 1 (Some ''T1'') 1,
             example_reading ''M1'' 2 (Some ''T1'') 2,
             example_reading ''M1'' 3 (Some ''T1'') 3,
             example_reading ''M2'' 3 None 5]) = Inr (rows example_decisions)"
    by (simp add: m1 m2 example_decisions_def example_decision_def example_line_def)
  then show ?thesis by (simp add: example_processed_def)
qed

lemma example_fraction:
  "group_fraction exact (rows example_decisions) ''T1'' 1 = Num 0"
  "group_fraction exact (rows example_decisions) ''T1'' 2 = Num 0"
  "group_fraction exact (rows example_decisions) ''T1'' 3 = Num 1"
  by (simp_all add: group_fraction_def group_of_def high_load_def meter_mean_power_def
      example_decisions_def example_decision_keys exact_ops col_mean_def num_ratio_def)

lemma example_overload:
  "check_transformer_overload exact example_decisions (Num 0.7) = Inr example_overloaded"
proof -
  have "has_transformer_id example_decisions"
    and "example_decision ''M1'' 1 (Some ''T1'') 1 \<in> set (rows example_decisions)"
    and "transformer_id (example_decision ''M1'' 1 (Some ''T1'') 1) = Some ''T1''"
    by (simp_all add: example_decisions_def example_decision_keys)
  then have "check_transformer_overload exact example_decisions (Num 0.7) =
      Inr (example_decisions\<lparr> rows :=
             map (override_row exact (rows example_decisions) (Num 0.7))
               (rows example_decisions) \<rparr>)"
    by (rule check_transformer_overload_returns)
  moreover have "map (override_row exact (rows example_decisions) (Num 0.7))
      [example_decision ''M1'' 1 (Some ''T1'') 1,
       example_decision ''M1'' 2 (Some ''T1'') 2,
       example_decision ''M1'' 3 (Some ''T1'') 3,
       example_decision ''M2'' 3 None 5] = rows example_overloaded"
    using example_fraction
    by (simp add: override_row_transformer [where t = "''T1''"] override_row_no_transformer
        example_decision_keys exact_ops example_overloaded_def)
  ultimately show ?thesis
    by (simp add: example_decisions_def example_overloaded_def)
qed

lemma example_analyze:
  "analyze_patterns exact example_processed None = Inr example_overloaded"
proof -
  have "rows example_processed \<noteq> []" and "has_transformer_id example_processed"
    by (simp_all add: example_processed_def)
  moreover have "\<lparr> has_transformer_id = True, rows = rows example_decisions \<rparr> = example_decisions"
    by (simp add: example_decisions_def)
  ultimately show ?thesis
    using example_overload
    by (simp add: analyze_patterns_def Let_def example_classify exact_ops)
qed

lemma example_pattern:
  "pattern (example_decision m ts t p) = ''normal''"
  "risk_score (example_decision m ts t p) = 0"
  "explanation (example_decision m ts t p) = NormalOperation"
  by (simp_all add: example_decision_def example_line_def add_decision_fields)

lemma example_run: "run_engine exact example_processed None example_output"
  by (simp add: run_engine_def example_analyze example_overloaded_def sort_values_desc_def
      example_output_def add_alert_fields force_overload_fields example_pattern)

theorem risk_score_bounds_witness:
  "example_decision ''M1'' 1 (Some ''T1'') 1 \<in> set (rows example_overloaded) \<and>
   risk_score (example_decision ''M1'' 1 (Some ''T1'') 1) = 0 \<and>
   0 \<le> risk_score (force_overload exact (Num 1) (example_decision ''M1'' 3 (Some ''T1'') 3)) \<and>
   risk_score (force_overload exact (Num 1) (example_decision ''M1'' 3 (Some ''T1'') 3)) \<le> 1"
proof -
  have m1: "example_decision ''M1'' 1 (Some ''T1'') 1 \<in> set (rows example_overloaded)"
    and m3: "force_overload exact (Num 1) (example_decision ''M1'' 3 (Some ''T1'') 3)
              \<in> set (rows example_overloaded)"
    by (simp_all add: example_overloaded_def)
  from risk_score_bounds [OF example_analyze m1]
  have "risk_score (example_decision ''M1'' 1 (Some ''T1'') 1) = 0"
    by (simp add: example_pattern(1))
  with m1 risk_score_bounds [OF example_analyze m3] show ?thesis by simp
qed

theorem one_pattern_and_alert_witness:
  "alert (add_alert (force_overload exact (Num 1) (example_decision ''M1'' 3 (Some ''T1'') 3))) \<and>
   \<not> alert (add_alert (example_decision ''M1'' 1 (Some ''T1'') 1))"
proof -
  have m0: "add_alert (force_overload exact (Num 1) (example_decision ''M1'' 3 (Some ''T1'') 3))
              \<in> set example_output"
    and m1: "add_alert (example_decision ''M1'' 1 (Some ''T1'') 1) \<in> set example_output"
    by (simp_all add: example_output_def)
  from one_pattern_and_alert [OF example_run m0] one_pattern_and_alert [OF example_run m1]
  show ?thesis
    by (simp add: add_alert_fields force_overload_fields example_pattern)
qed

theorem no_model_defaults_witness:
  "prediction (add_alert (example_decision ''M2'' 3 None 5)) = 1 \<and>
   anomaly_score (add_alert (example_decision ''M2'' 3 None 5)) = Num 0 \<and>
   rule_only_decision ''normal'' 0 (NormalOperation :: num explanation)"
proof -
  have m: "add_alert (example_decision ''M2'' 3 None 5) \<in> set example_output"
    by (simp add: example_output_def)
  from no_model_defaults [OF example_run m] show ?thesis
    by (simp add: add_alert_fields example_pattern exact_ops)
qed

end
